theory Spec2Isabelle
  imports Complex_Main
begin

section \<open>Archive-first dual-source snapshot acquisition (scripts/wayback\_fetch.py)\<close>

text \<open>
  A shallow embedding of \<^verbatim>\<open>scripts/wayback_fetch.py\<close>: the retrying HTTP wrapper
  \<^verbatim>\<open>_get\<close>, the archive lookup \<^verbatim>\<open>wayback_lookup\<close>, the two fetch functions
  \<^verbatim>\<open>fetch_live\<close> and \<^verbatim>\<open>fetch_archived\<close>, and the orchestration \<^verbatim>\<open>collect_dual\<close>.

  The network is a parameter: the answer of \<^verbatim>\<open>requests.get\<close> to the n-th request of a run.
  What the code does to the outside world (requests sent, sleeps taken) is written to a
  trace that every function takes and returns. A Python exception is the \<open>Inl\<close> branch of
  a sum.

  Leading underscores of private Python names are written \<open>p_\<close>
  (\<^verbatim>\<open>_get\<close> is \<open>p_get\<close>).
\<close>

subsection \<open>Python values, exceptions, responses\<close>

text \<open>
  The values that \<^verbatim>\<open>r.json()\<close> can produce, as Python objects. Numbers are integers
  (the code only tests a number for truthiness). A dict is an association list; a key is
  looked up with \<open>map_of\<close>.
\<close>

datatype pyval =
    PNone
  | PBool bool
  | PInt int
  | PStr string
  | PList "pyval list"
  | PDict "(string \<times> pyval) list"

text \<open>Python truthiness (\<^verbatim>\<open>if x:\<close>, \<^verbatim>\<open>x and y\<close>, \<^verbatim>\<open>x or y\<close>).\<close>

fun truthy :: "pyval \<Rightarrow> bool" where
  "truthy PNone = False"
| "truthy (PBool b) = b"
| "truthy (PInt i) = (i \<noteq> 0)"
| "truthy (PStr s) = (s \<noteq> [])"
| "truthy (PList xs) = (xs \<noteq> [])"
| "truthy (PDict kvs) = (kvs \<noteq> [])"

text \<open>
  Exceptions. \<open>RequestException\<close> stands for an instance of \<^verbatim>\<open>requests.RequestException\<close>
  or of any of its subclasses (ConnectionError, Timeout, HTTPError, ...): it is what
  \<^verbatim>\<open>except requests.RequestException\<close> catches. The other two are not caught anywhere in
  the module.
\<close>

datatype exn =
    RequestException string
  | AttributeError string
  | OtherError string

fun is_request_exception :: "exn \<Rightarrow> bool" where
  "is_request_exception (RequestException m) = True"
| "is_request_exception (AttributeError m) = False"
| "is_request_exception (OtherError m) = False"

text \<open>
  A \<^verbatim>\<open>requests.Response\<close>: its status code, its text, and what \<^verbatim>\<open>r.json()\<close> does
  (raise, or return a value). A \<open>char\<close> of \<open>r_text\<close> is one character of the
  Python string, so \<open>length\<close> is Python's \<^verbatim>\<open>len\<close>; HOL characters have 256 values, so
  the strings of the model are those over the code points below 256.
\<close>

record response =
  status_code :: int
  r_text :: string
  r_json :: "exn + pyval"

subsection \<open>The outside world\<close>

text \<open>
  One event per call of \<^verbatim>\<open>requests.get\<close> (every call carries the same
  \<^verbatim>\<open>timeout\<close> and the same \<^verbatim>\<open>HEADERS\<close>) and per call of \<^verbatim>\<open>time.sleep\<close>.
  The trace lists the events of a run, oldest first.
\<close>

datatype event = Get pyval | Sleep rat

type_synonym world = "event list"

fun is_get :: "event \<Rightarrow> bool" where
  "is_get (Get u) = True"
| "is_get (Sleep d) = False"

definition request_count :: "world \<Rightarrow> nat" where
  "request_count w = length (filter is_get w)"

text \<open>
  The transport: what \<^verbatim>\<open>requests.get\<close> does on the n-th request of the run (counted
  from 0) for a given URL: raise (\<open>Inl\<close>) or return a response (\<open>Inr\<close>).
\<close>

type_synonym transport = "nat \<Rightarrow> pyval \<Rightarrow> exn + response"

subsection \<open>Constants\<close>

definition USER_AGENT :: string where
  "USER_AGENT = ''ClimateSTANCE/1.1 (Research use; contact: saheerrahman98@gmail.com)''"

definition HEADERS :: "(string \<times> string) list" where
  "HEADERS = [(''User-Agent'', USER_AGENT)]"

definition MIN_GOOD_LEN :: nat where
  "MIN_GOOD_LEN = 800"

subsection \<open>Formatting integers\<close>

fun digits :: "nat \<Rightarrow> string" where
  "digits n = (if n < 10 then [''0123456789'' ! n]
               else digits (n div 10) @ [''0123456789'' ! (n mod 10)])"

declare digits.simps [simp del]

text \<open>\<^verbatim>\<open>str(n)\<close> for an integer.\<close>

definition str_int :: "int \<Rightarrow> string" where
  "str_int n = (if n < 0 then CHR ''-'' # digits (nat (- n)) else digits (nat n))"

text \<open>
  The format specification \<^verbatim>\<open>{n:0wd}\<close>: decimal, padded with zeros to width w, the
  sign (if any) before the zeros.
\<close>

definition fmt_0d :: "nat \<Rightarrow> int \<Rightarrow> string" where
  "fmt_0d width n =
     (if n < 0
      then CHR ''-'' # replicate (width - 1 - length (digits (nat (- n)))) CHR ''0'' @ digits (nat (- n))
      else replicate (width - length (digits (nat n))) CHR ''0'' @ digits (nat n))"

text \<open>
  \<^verbatim>\<open>
  def _mid_month_timestamp(year, month):
      return f"{year:04d}{month:02d}15" "120000"
  \<close>
\<close>

definition p_mid_month_timestamp :: "int \<Rightarrow> int \<Rightarrow> string" where
  "p_mid_month_timestamp year month = fmt_0d 4 year @ fmt_0d 2 month @ ''15'' @ ''120000''"

subsection \<open>\<^verbatim>\<open>urllib.parse.quote\<close>\<close>

text \<open>
  \<^verbatim>\<open>quote(s)\<close> with its default \<^verbatim>\<open>safe='/'\<close>: the string is encoded in UTF-8 and every
  byte that is not a letter, a digit or one of \<^verbatim>\<open>_.-~/\<close> is written \<^verbatim>\<open>%XX\<close>.
\<close>

definition quote_safe :: string where
  "quote_safe = ''ABCDEFGHIJKLMNOPQRSTUVWXYZabcdefghijklmnopqrstuvwxyz0123456789_.-~/''"

definition utf8 :: "char \<Rightarrow> nat list" where
  "utf8 c = (let n = (of_char c :: nat)
             in if n < 128 then [n] else [192 + n div 64, 128 + n mod 64])"

definition percent :: "nat \<Rightarrow> string" where
  "percent b = [CHR ''%'', ''0123456789ABCDEF'' ! (b div 16), ''0123456789ABCDEF'' ! (b mod 16)]"

definition quote :: "string \<Rightarrow> string" where
  "quote s = concat (map (\<lambda>c. if c \<in> set quote_safe then [c] else concat (map percent (utf8 c))) s)"

subsection \<open>\<^verbatim>\<open>_get\<close>: the retrying HTTP wrapper\<close>

text \<open>
  \<^verbatim>\<open>
  def _get(url, timeout=25, tries=3, backoff=0.75):
      last_exc = None
      for i in range(tries):
          try:
              return requests.get(url, timeout=timeout, headers=HEADERS)
          except requests.RequestException as e:
              last_exc = e
              time.sleep(backoff * (2 ** i))
      if last_exc:
          raise last_exc
      raise requests.RequestException("Unknown requests error")
  \<close>
  \<open>get_loop\<close> is the loop with \<open>left\<close> iterations to go, at loop index \<open>i\<close>. An exception
  that is not a \<open>RequestException\<close> leaves the loop at once.
\<close>

fun get_loop :: "transport \<Rightarrow> pyval \<Rightarrow> rat \<Rightarrow> nat \<Rightarrow> nat \<Rightarrow> exn option \<Rightarrow> world
                   \<Rightarrow> (exn + response) \<times> world" where
  "get_loop net url backoff 0 i last_exc w =
     (case last_exc of
        Some e \<Rightarrow> (Inl e, w)
      | None \<Rightarrow> (Inl (RequestException ''Unknown requests error''), w))"
| "get_loop net url backoff (Suc left) i last_exc w =
     (case net (request_count w) url of
        Inr r \<Rightarrow> (Inr r, w @ [Get url])
      | Inl e \<Rightarrow>
          if is_request_exception e
          then get_loop net url backoff left (Suc i) (Some e)
                 (w @ [Get url, Sleep (backoff * 2 ^ i)])
          else (Inl e, w @ [Get url]))"

definition p_get :: "transport \<Rightarrow> pyval \<Rightarrow> world \<Rightarrow> (exn + response) \<times> world" where
  "p_get net url w = get_loop net url (3 / 4) 3 0 None w"

subsection \<open>\<^verbatim>\<open>wayback_lookup\<close>\<close>

text \<open>\<^verbatim>\<open>r.raise_for_status()\<close>: an HTTPError for a status from 400 to 599.\<close>

definition raise_for_status :: "response \<Rightarrow> exn + unit" where
  "raise_for_status r =
     (if 400 \<le> status_code r \<and> status_code r < 600
      then Inl (RequestException ''HTTPError'') else Inr ())"

text \<open>
  \<^verbatim>\<open>x.get(key, default)\<close>: only a dict has the method; any other value raises
  AttributeError.
\<close>

fun py_get :: "pyval \<Rightarrow> string \<Rightarrow> pyval \<Rightarrow> exn + pyval" where
  "py_get (PDict kvs) key dflt = Inr (case map_of kvs key of Some v \<Rightarrow> v | None \<Rightarrow> dflt)"
| "py_get v key dflt = Inl (AttributeError ''get'')"

text \<open>
  The body of the \<^verbatim>\<open>try\<close> block after \<^verbatim>\<open>r = _get(api)\<close>:
  \<^verbatim>\<open>
      r.raise_for_status()
      payload = r.json()
      closest = payload.get("archived_snapshots", {}).get("closest")
      if closest and closest.get("available"):
          return closest.get("url"), closest.get("timestamp")
      return None, None
  \<close>
\<close>

definition lookup_closest :: "response \<Rightarrow> exn + pyval \<times> pyval" where
  "lookup_closest r =
     (case raise_for_status r of
        Inl e \<Rightarrow> Inl e
      | Inr u \<Rightarrow>
     (case r_json r of
        Inl e \<Rightarrow> Inl e
      | Inr payload \<Rightarrow>
     (case py_get payload ''archived_snapshots'' (PDict []) of
        Inl e \<Rightarrow> Inl e
      | Inr snapshots \<Rightarrow>
     (case py_get snapshots ''closest'' PNone of
        Inl e \<Rightarrow> Inl e
      | Inr closest \<Rightarrow>
          if \<not> truthy closest then Inr (PNone, PNone)
          else
     (case py_get closest ''available'' PNone of
        Inl e \<Rightarrow> Inl e
      | Inr available \<Rightarrow>
          if \<not> truthy available then Inr (PNone, PNone)
          else
     (case py_get closest ''url'' PNone of
        Inl e \<Rightarrow> Inl e
      | Inr u \<Rightarrow>
     (case py_get closest ''timestamp'' PNone of
        Inl e \<Rightarrow> Inl e
      | Inr t \<Rightarrow> Inr (u, t))))))))"

text \<open>
  The f-string
  \<^verbatim>\<open>f"https://archive.org/wayback/available?url={quote(url)}&timestamp={ts}"\<close>.
\<close>

definition api_url :: "string \<Rightarrow> string \<Rightarrow> string" where
  "api_url url ts = ''https://archive.org/wayback/available?url='' @ quote url @ ''&timestamp='' @ ts"

text \<open>
  \<^verbatim>\<open>
  def wayback_lookup(url, year, month):
      if not url:
          return None, None
      ts = _mid_month_timestamp(year, month)
      api = f"https://archive.org/wayback/available?url={quote(url)}&timestamp={ts}"
      try:
          r = _get(api)
          ...
      except requests.RequestException:
          return None, None
  \<close>
\<close>

definition wayback_lookup :: "transport \<Rightarrow> string \<Rightarrow> int \<Rightarrow> int \<Rightarrow> world
                               \<Rightarrow> (exn + pyval \<times> pyval) \<times> world" where
  "wayback_lookup net url year month w =
     (if url = [] then (Inr (PNone, PNone), w)
      else
        let ts = p_mid_month_timestamp year month;
            api = api_url url ts
        in case p_get net (PStr api) w of
             (res, w') \<Rightarrow>
               (case (case res of Inl e \<Rightarrow> Inl e | Inr r \<Rightarrow> lookup_closest r) of
                  Inl e \<Rightarrow> if is_request_exception e then (Inr (PNone, PNone), w') else (Inl e, w')
                | Inr found \<Rightarrow> (Inr found, w')))"

subsection \<open>\<^verbatim>\<open>fetch_live\<close> and \<^verbatim>\<open>fetch_archived\<close>\<close>

text \<open>
  \<^verbatim>\<open>
  def fetch_live(url):
      if not url:
          return None, 0
      try:
          r = _get(url)
          if r.status_code == 200 and r.text and len(r.text) > MIN_GOOD_LEN:
              return r.text, r.status_code
          return None, r.status_code
      except requests.RequestException:
          return None, 0
  \<close>
\<close>

definition fetch_live :: "transport \<Rightarrow> string \<Rightarrow> world \<Rightarrow> (exn + string option \<times> int) \<times> world" where
  "fetch_live net url w =
     (if url = [] then (Inr (None, 0), w)
      else case p_get net (PStr url) w of
             (Inr r, w') \<Rightarrow>
               if status_code r = 200 \<and> r_text r \<noteq> [] \<and> length (r_text r) > MIN_GOOD_LEN
               then (Inr (Some (r_text r), status_code r), w')
               else (Inr (None, status_code r), w')
           | (Inl e, w') \<Rightarrow>
               if is_request_exception e then (Inr (None, 0), w') else (Inl e, w'))"

text \<open>
  \<^verbatim>\<open>fetch_archived\<close> has the same body; its argument is the value that
  \<^verbatim>\<open>wayback_lookup\<close> took from the JSON payload.
\<close>

definition fetch_archived :: "transport \<Rightarrow> pyval \<Rightarrow> world \<Rightarrow> (exn + string option \<times> int) \<times> world" where
  "fetch_archived net archive_url w =
     (if \<not> truthy archive_url then (Inr (None, 0), w)
      else case p_get net archive_url w of
             (Inr r, w') \<Rightarrow>
               if status_code r = 200 \<and> r_text r \<noteq> [] \<and> length (r_text r) > MIN_GOOD_LEN
               then (Inr (Some (r_text r), status_code r), w')
               else (Inr (None, status_code r), w')
           | (Inl e, w') \<Rightarrow>
               if is_request_exception e then (Inr (None, 0), w') else (Inl e, w'))"

subsection \<open>\<^verbatim>\<open>collect_dual\<close>\<close>

text \<open>The dict that \<^verbatim>\<open>collect_dual\<close> returns, one field per key.\<close>

record snapshot =
  archive_html :: string
  status_archive :: string
  archive_url :: pyval
  snapshot_ts :: pyval
  live_html :: string
  status_live :: string
  chosen_provenance :: string
  reason :: string

definition initial_out :: snapshot where
  "initial_out =
     \<lparr>archive_html = '''', status_archive = '''', archive_url = PStr '''', snapshot_ts = PStr '''',
      live_html = '''', status_live = '''', chosen_provenance = ''none'', reason = ''''\<rparr>"

text \<open>\<^verbatim>\<open>html or ""\<close>, \<^verbatim>\<open>str(code or "")\<close> and \<^verbatim>\<open>ts or ""\<close>.\<close>

definition html_or_empty :: "string option \<Rightarrow> string" where
  "html_or_empty html = (case html of None \<Rightarrow> '''' | Some s \<Rightarrow> if s = [] then '''' else s)"

definition str_code_or_empty :: "int \<Rightarrow> string" where
  "str_code_or_empty code = (if code = 0 then '''' else str_int code)"

definition ts_or_empty :: "pyval \<Rightarrow> pyval" where
  "ts_or_empty ts = (if truthy ts then ts else PStr '''')"

text \<open>
  Step 1 of \<^verbatim>\<open>collect_dual\<close>:
  \<^verbatim>\<open>
      a_url, ts = wayback_lookup(url, year, month)
      if a_url:
          html_a, code_a = fetch_archived(a_url)
          out["archive_html"] = html_a or ""
          out["status_archive"] = str(code_a or "")
          out["archive_url"] = a_url
          out["snapshot_ts"] = ts or ""
  \<close>
\<close>

definition archive_first :: "transport \<Rightarrow> string \<Rightarrow> int \<Rightarrow> int \<Rightarrow> snapshot \<Rightarrow> world
                              \<Rightarrow> (exn + snapshot) \<times> world" where
  "archive_first net url year month out w =
     (case wayback_lookup net url year month w of
        (Inl e, w1) \<Rightarrow> (Inl e, w1)
      | (Inr (a_url, ts), w1) \<Rightarrow>
          if truthy a_url
          then (case fetch_archived net a_url w1 of
                  (Inl e, w2) \<Rightarrow> (Inl e, w2)
                | (Inr (html_a, code_a), w2) \<Rightarrow>
                    (Inr (out\<lparr>archive_html := html_or_empty html_a,
                               status_archive := str_code_or_empty code_a,
                               archive_url := a_url,
                               snapshot_ts := ts_or_empty ts\<rparr>), w2))
          else (Inr out, w1))"

text \<open>
  Step 2:
  \<^verbatim>\<open>
      html_l, code_l = fetch_live(url)
      out["live_html"] = html_l or ""
      out["status_live"] = str(code_l or "")
  \<close>
\<close>

definition live_redundancy :: "transport \<Rightarrow> string \<Rightarrow> snapshot \<Rightarrow> world \<Rightarrow> (exn + snapshot) \<times> world" where
  "live_redundancy net url out w =
     (case fetch_live net url w of
        (Inl e, w') \<Rightarrow> (Inl e, w')
      | (Inr (html_l, code_l), w') \<Rightarrow>
          (Inr (out\<lparr>live_html := html_or_empty html_l,
                     status_live := str_code_or_empty code_l\<rparr>), w'))"

text \<open>
  Step 3:
  \<^verbatim>\<open>
      if len(out["archive_html"]) >= MIN_GOOD_LEN:
          out["chosen_provenance"] = "archive"
          out["reason"] = "archive_ok"
      elif len(out["live_html"]) >= MIN_GOOD_LEN:
          out["chosen_provenance"] = "live"
          out["reason"] = "archive_missing_or_small_live_ok"
      else:
          out["chosen_provenance"] = "none"
          out["reason"] = "both_missing_or_small"
  \<close>
\<close>

definition choose_authoritative :: "snapshot \<Rightarrow> snapshot" where
  "choose_authoritative out =
     (if length (archive_html out) \<ge> MIN_GOOD_LEN
      then out\<lparr>chosen_provenance := ''archive'', reason := ''archive_ok''\<rparr>
      else if length (live_html out) \<ge> MIN_GOOD_LEN
      then out\<lparr>chosen_provenance := ''live'', reason := ''archive_missing_or_small_live_ok''\<rparr>
      else out\<lparr>chosen_provenance := ''none'', reason := ''both_missing_or_small''\<rparr>)"

text \<open>\<^verbatim>\<open>collect_dual(url, year, month)\<close>: the three steps in sequence.\<close>

definition collect_dual :: "transport \<Rightarrow> string \<Rightarrow> int \<Rightarrow> int \<Rightarrow> world \<Rightarrow> (exn + snapshot) \<times> world" where
  "collect_dual net url year month w =
     (case archive_first net url year month initial_out w of
        (Inl e, w1) \<Rightarrow> (Inl e, w1)
      | (Inr out1, w1) \<Rightarrow>
          (case live_redundancy net url out1 w1 of
             (Inl e, w2) \<Rightarrow> (Inl e, w2)
           | (Inr out2, w2) \<Rightarrow> (Inr (choose_authoritative out2), w2)))"

subsection \<open>Test doubles and sample runs\<close>

text \<open>
  The outcome of one call of \<^verbatim>\<open>requests.get\<close> is a transport failure when it raises a
  \<open>RequestException\<close>. \<open>transport_fails net n url\<close>: the three attempts that
  \<^verbatim>\<open>_get(url)\<close> makes from request number \<open>n\<close> on all fail.
\<close>

fun raises_request_exception :: "exn + response \<Rightarrow> bool" where
  "raises_request_exception (Inl e) = is_request_exception e"
| "raises_request_exception (Inr r) = False"

definition transport_fails :: "transport \<Rightarrow> nat \<Rightarrow> pyval \<Rightarrow> bool" where
  "transport_fails net n url =
     (raises_request_exception (net n url)
      \<and> raises_request_exception (net (n + 1) url)
      \<and> raises_request_exception (net (n + 2) url))"

text \<open>The events of one \<^verbatim>\<open>_get(url)\<close> whose three attempts fail.\<close>

definition exhausted_trace :: "pyval \<Rightarrow> world" where
  "exhausted_trace url = [Get url, Sleep (3 / 4), Get url, Sleep (3 / 2), Get url, Sleep 3]"

text \<open>
  A mock transport that answers the n-th request of a run with the n-th entry of a
  script, whatever the URL, and refuses the connection once the script is used up.
\<close>

definition scripted :: "(exn + response) list \<Rightarrow> transport" where
  "scripted rs n u = (if n < length rs then rs ! n else Inl (RequestException ''ConnectionError''))"

text \<open>A page of \<open>n\<close> characters served with status \<open>code\<close>; its text is not JSON.\<close>

definition page :: "int \<Rightarrow> nat \<Rightarrow> response" where
  "page code n =
     \<lparr>status_code = code, r_text = replicate n CHR ''a'',
      r_json = Inl (RequestException ''JSONDecodeError'')\<rparr>"

text \<open>The archive service's answer when a snapshot is available.\<close>

definition available :: "string \<Rightarrow> string \<Rightarrow> response" where
  "available a ts =
     \<lparr>status_code = 200, r_text = '''',
      r_json = Inr (PDict [(''archived_snapshots'',
                 PDict [(''closest'',
                   PDict [(''available'', PBool True), (''url'', PStr a), (''timestamp'', PStr ts)])])])\<rparr>"

text \<open>The archive service's answer when it has no snapshot.\<close>

definition unavailable :: response where
  "unavailable =
     \<lparr>status_code = 200, r_text = '''',
      r_json = Inr (PDict [(''archived_snapshots'', PDict [])])\<rparr>"

definition site :: string where
  "site = ''http://example.gov''"

definition snap :: string where
  "snap = ''http://web.archive.org/web/20200613000000/http://example.gov''"

definition snap_ts :: string where
  "snap_ts = ''20200613000000''"

text \<open>
  Sample runs for \<open>site\<close> in June 2020: the URL of the lookup request, scripts for the
  transport, and the records the runs return.
\<close>

definition lookup_url :: pyval where
  "lookup_url = PStr ''https://archive.org/wayback/available?url=http%3A//example.gov&timestamp=20200615120000''"

definition net_800 :: transport where
  "net_800 = scripted [Inr (available snap snap_ts), Inr (page 200 800), Inr (page 200 0)]"

definition net_799_800 :: transport where
  "net_799_800 = scripted [Inr (available snap snap_ts), Inr (page 200 799), Inr (page 200 800)]"

definition out_boundary :: snapshot where
  "out_boundary =
     \<lparr>archive_html = '''', status_archive = ''200'', archive_url = PStr snap,
      snapshot_ts = PStr snap_ts, live_html = '''', status_live = ''200'',
      chosen_provenance = ''none'', reason = ''both_missing_or_small''\<rparr>"

definition net_no_snapshot :: transport where
  "net_no_snapshot = scripted [Inr unavailable, Inr (page 200 1000)]"

definition out_live_ok :: snapshot where
  "out_live_ok =
     \<lparr>archive_html = '''', status_archive = '''', archive_url = PStr '''',
      snapshot_ts = PStr '''', live_html = replicate 1000 CHR ''a'', status_live = ''200'',
      chosen_provenance = ''live'', reason = ''archive_missing_or_small_live_ok''\<rparr>"

definition net_down :: transport where
  "net_down = scripted []"

definition out_none :: snapshot where
  "out_none = initial_out\<lparr>chosen_provenance := ''none'', reason := ''both_missing_or_small''\<rparr>"



definition net_archive_ok :: transport where
  "net_archive_ok = scripted [Inr (available snap snap_ts), Inr (page 200 801), Inr (page 503 900)]"

definition out_archive_ok :: snapshot where
  "out_archive_ok =
     \<lparr>archive_html = replicate 801 CHR ''a'', status_archive = ''200'', archive_url = PStr snap,
      snapshot_ts = PStr snap_ts, live_html = '''', status_live = ''503'',
      chosen_provenance = ''archive'', reason = ''archive_ok''\<rparr>"

text \<open>
  Two records for the selection step alone: an archive body of exactly \<open>MIN_GOOD_LEN\<close>
  characters recorded with status 503, and one of 900 characters with status 200 beside
  a live body of 799 characters.
\<close>

definition sel_800_503 :: snapshot where
  "sel_800_503 =
     initial_out\<lparr>archive_html := replicate 800 CHR ''a'', status_archive := ''503''\<rparr>"

definition sel_900_200 :: snapshot where
  "sel_900_200 =
     initial_out\<lparr>archive_html := replicate 900 CHR ''b'', status_archive := ''200'',
                 live_html := replicate 799 CHR ''c'', status_live := ''200''\<rparr>"

subsection \<open>The decision table of the specification\<close>

text \<open>
  The Provenance Selector as the specification writes it, a table over two truth values
  in which the first matching row wins: archive good gives \<open>archive\<close> and
  \<open>archive_ok\<close>; else live good gives \<open>live\<close> and
  \<open>archive_missing_or_small_live_ok\<close>; else \<open>none\<close> and \<open>both_missing_or_small\<close>.
  It is compared with step 3 of \<open>collect_dual\<close>.
\<close>

definition decision_table ::"bool \<Rightarrow> bool \<Rightarrow> string \<times> string" where
  "decision_table archive_good live_good =
     (if archive_good then (''archive'', ''archive_ok'')
      else if live_good then (''live'', ''archive_missing_or_small_live_ok'')
      else (''none'', ''both_missing_or_small''))"


text \<open>
  The transport raises nothing but \<open>RequestException\<close>s: every failure of
  \<^verbatim>\<open>requests.get\<close> is a transport failure.
\<close>

definition always_down :: transport where
  "always_down n u = Inl (RequestException ''ConnectionError'')"

section \<open>Properties\<close>

subsection \<open>The retry loop and the fetch functions\<close>

lemma request_count_simps:
  "request_count [] = 0"
  "request_count (Get u # v) = Suc (request_count v)"
  "request_count (Sleep d # v) = request_count v"
  "request_count (w @ v) = request_count w + request_count v"
  by (simp_all add: request_count_def)

lemma p_get_first:
  "p_get net url w =
     (case net (request_count w) url of
        Inr r \<Rightarrow> (Inr r, w @ [Get url])
      | Inl e \<Rightarrow>
          if is_request_exception e
          then get_loop net url (3 / 4) (Suc (Suc 0)) (Suc 0) (Some e) (w @ [Get url, Sleep (3 / 4)])
          else (Inl e, w @ [Get url]))"
  by (simp add: p_get_def numeral_3_eq_3 split: sum.splits)


lemma p_get_exhausted:
  assumes "transport_fails net (request_count w) url"
  shows "\<exists>e. is_request_exception e \<and> p_get net url w = (Inl e, w @ exhausted_trace url)"
proof -
  from assms obtain e1 e2 e3 where
    e: "net (request_count w) url = Inl e1" "net (request_count w + 1) url = Inl e2"
       "net (request_count w + 2) url = Inl e3"
       "is_request_exception e1" "is_request_exception e2" "is_request_exception e3"
    unfolding transport_fails_def
    by (metis raises_request_exception.elims(2))
  have "p_get net url w = (Inl e3, w @ exhausted_trace url)"
    using e by (simp add: p_get_def numeral_3_eq_3 request_count_simps exhausted_trace_def)
  with e show ?thesis by blast
qed

text \<open>Every event that the loop adds is a request to its URL or a sleep.\<close>

lemma get_loop_trace:
  "\<exists>evs. snd (get_loop net url b left i last_exc w) = w @ evs
         \<and> (\<forall>ev \<in> set evs. is_get ev \<longrightarrow> ev = Get url)
         \<and> (0 < left \<longrightarrow> Get url \<in> set evs)"
proof (induction left arbitrary: i last_exc w)
  case 0
  then show ?case by (auto split: option.splits)
next
  case (Suc left)
  show ?case
  proof (cases "net (request_count w) url")
    case (Inr r)
    then show ?thesis by simp
  next
    case (Inl e')
    show ?thesis
    proof (cases "is_request_exception e'")
      case False
      with Inl show ?thesis by simp
    next
      case True
      from Suc.IH [of "Suc i" "Some e'" "w @ [Get url, Sleep (b * 2 ^ i)]"]
      obtain evs where
        evs: "snd (get_loop net url b left (Suc i) (Some e') (w @ [Get url, Sleep (b * 2 ^ i)]))
                = (w @ [Get url, Sleep (b * 2 ^ i)]) @ evs"
             "\<forall>ev \<in> set evs. is_get ev \<longrightarrow> ev = Get url"
        by blast
      have "snd (get_loop net url b (Suc left) i last_exc w) = w @ ([Get url, Sleep (b * 2 ^ i)] @ evs)"
        using Inl True evs(1) by simp
      moreover have "\<forall>ev \<in> set ([Get url, Sleep (b * 2 ^ i)] @ evs). is_get ev \<longrightarrow> ev = Get url"
        using evs(2) by auto
      moreover have "Get url \<in> set ([Get url, Sleep (b * 2 ^ i)] @ evs)" by simp
      ultimately show ?thesis by blast
    qed
  qed
qed

lemma p_get_trace:
  "\<exists>evs. snd (p_get net url w) = w @ evs \<and> Get url \<in> set evs
         \<and> (\<forall>ev \<in> set evs. is_get ev \<longrightarrow> ev = Get url)"
  using get_loop_trace [of net url "3 / 4" 3 0 None w]
  unfolding p_get_def by auto


lemma fetch_live_body:
  assumes "fetch_live net url w = (Inr (Some s, c), w')"
  shows "MIN_GOOD_LEN < length s \<and> c = 200"
  using assms
  by (auto simp: fetch_live_def split: if_splits prod.splits sum.splits)

lemma fetch_archived_body:
  assumes "fetch_archived net a w = (Inr (Some s, c), w')"
  shows "MIN_GOOD_LEN < length s \<and> c = 200"
  using assms
  by (auto simp: fetch_archived_def split: if_splits prod.splits sum.splits)

lemma html_or_empty_cases:
  "html_or_empty None = []"
  "html_or_empty (Some s) = s"
  by (simp_all add: html_or_empty_def)

lemma fetch_live_exhausted:
  assumes "url \<noteq> []" and "transport_fails net (request_count w) (PStr url)"
  shows "fetch_live net url w = (Inr (None, 0), w @ exhausted_trace (PStr url))"
proof -
  from p_get_exhausted [OF assms(2)] obtain e where
    "is_request_exception e" "p_get net (PStr url) w = (Inl e, w @ exhausted_trace (PStr url))"
    by blast
  with assms(1) show ?thesis by (simp add: fetch_live_def)
qed

lemma fetch_archived_exhausted:
  assumes "truthy a" and "transport_fails net (request_count w) a"
  shows "fetch_archived net a w = (Inr (None, 0), w @ exhausted_trace a)"
proof -
  from p_get_exhausted [OF assms(2)] obtain e where
    "is_request_exception e" "p_get net a w = (Inl e, w @ exhausted_trace a)"
    by blast
  with assms(1) show ?thesis by (simp add: fetch_archived_def)
qed

lemma wayback_lookup_exhausted:
  assumes "url \<noteq> []"
    and "transport_fails net (request_count w) (PStr (api_url url (p_mid_month_timestamp year month)))"
  shows "wayback_lookup net url year month w
           = (Inr (PNone, PNone), w @ exhausted_trace (PStr (api_url url (p_mid_month_timestamp year month))))"
proof -
  from p_get_exhausted [OF assms(2)] obtain e where
    "is_request_exception e"
    "p_get net (PStr (api_url url (p_mid_month_timestamp year month))) w
       = (Inl e, w @ exhausted_trace (PStr (api_url url (p_mid_month_timestamp year month))))"
    by blast
  with assms(1) show ?thesis by (simp add: wayback_lookup_def)
qed

lemma fetch_live_trace:
  "\<exists>evs. snd (fetch_live net url w) = w @ evs
         \<and> (\<forall>ev \<in> set evs. is_get ev \<longrightarrow> ev = Get (PStr url))
         \<and> (url \<noteq> [] \<longrightarrow> Get (PStr url) \<in> set evs)"
proof (cases "url = []")
  case True
  then show ?thesis by (simp add: fetch_live_def)
next
  case False
  from p_get_trace [of net "PStr url" w] obtain evs where
    evs: "snd (p_get net (PStr url) w) = w @ evs" "Get (PStr url) \<in> set evs"
         "\<forall>ev \<in> set evs. is_get ev \<longrightarrow> ev = Get (PStr url)"
    by blast
  have "snd (fetch_live net url w) = snd (p_get net (PStr url) w)"
    using False by (simp add: fetch_live_def split: prod.splits sum.splits)
  with evs show ?thesis by metis
qed

text \<open>What a run of \<open>collect_dual\<close> that returns is made of.\<close>

lemma collect_dual_returns:
  assumes "collect_dual net url year month w = (Inr out, w')"
  obtains a_url ts w1 w2 html_l code_l pre where
    "wayback_lookup net url year month w = (Inr (a_url, ts), w1)"
    "archive_first net url year month initial_out w = (Inr pre, w2)"
    "fetch_live net url w2 = (Inr (html_l, code_l), w')"
    "out = choose_authoritative
             (pre\<lparr>live_html := html_or_empty html_l, status_live := str_code_or_empty code_l\<rparr>)"
    "\<not> truthy a_url \<and> w2 = w1 \<and> pre = initial_out
     \<or> truthy a_url \<and> (\<exists>html_a code_a.
          fetch_archived net a_url w1 = (Inr (html_a, code_a), w2)
          \<and> pre = initial_out\<lparr>archive_html := html_or_empty html_a,
                               status_archive := str_code_or_empty code_a,
                               archive_url := a_url,
                               snapshot_ts := ts_or_empty ts\<rparr>)"
proof -
  from assms obtain pre w2 where
    pre: "archive_first net url year month initial_out w = (Inr pre, w2)"
    by (auto simp: collect_dual_def split: prod.splits sum.splits)
  with assms obtain html_l code_l where
    live: "fetch_live net url w2 = (Inr (html_l, code_l), w')"
      "out = choose_authoritative
               (pre\<lparr>live_html := html_or_empty html_l, status_live := str_code_or_empty code_l\<rparr>)"
    by (auto simp: collect_dual_def live_redundancy_def split: prod.splits sum.splits)
  from pre obtain a_url ts w1 where
    look: "wayback_lookup net url year month w = (Inr (a_url, ts), w1)"
    by (auto simp: archive_first_def split: prod.splits sum.splits)
  have "\<not> truthy a_url \<and> w2 = w1 \<and> pre = initial_out
     \<or> truthy a_url \<and> (\<exists>html_a code_a.
          fetch_archived net a_url w1 = (Inr (html_a, code_a), w2)
          \<and> pre = initial_out\<lparr>archive_html := html_or_empty html_a,
                               status_archive := str_code_or_empty code_a,
                               archive_url := a_url,
                               snapshot_ts := ts_or_empty ts\<rparr>)"
    using pre look
    by (auto simp: archive_first_def split: prod.splits sum.splits if_splits)
  with pre live look show thesis using that by blast
qed

lemma choose_authoritative_fields:
  "archive_html (choose_authoritative out) = archive_html out"
  "status_archive (choose_authoritative out) = status_archive out"
  "archive_url (choose_authoritative out) = archive_url out"
  "snapshot_ts (choose_authoritative out) = snapshot_ts out"
  "live_html (choose_authoritative out) = live_html out"
  "status_live (choose_authoritative out) = status_live out"
  by (simp_all add: choose_authoritative_def)

lemma choose_authoritative_choice:
  "chosen_provenance (choose_authoritative out) =
     (if MIN_GOOD_LEN \<le> length (archive_html out) then ''archive''
      else if MIN_GOOD_LEN \<le> length (live_html out) then ''live'' else ''none'')"
  "reason (choose_authoritative out) =
     (if MIN_GOOD_LEN \<le> length (archive_html out) then ''archive_ok''
      else if MIN_GOOD_LEN \<le> length (live_html out) then ''archive_missing_or_small_live_ok''
      else ''both_missing_or_small'')"
  by (simp_all add: choose_authoritative_def)

subsection \<open>Sample runs\<close>

lemma api_url_site: "PStr (api_url site (p_mid_month_timestamp 2020 6)) = lookup_url"
  by (simp add: api_url_def site_def p_mid_month_timestamp_def fmt_0d_def quote_def quote_safe_def
      utf8_def percent_def lookup_url_def digits.simps)

lemma site_nonempty: "site \<noteq> []"
  by (simp add: site_def)

lemma snap_nonempty: "snap \<noteq> []"
  by (simp add: snap_def)

lemmas sample_defs =
  initial_out_def html_or_empty_def str_code_or_empty_def ts_or_empty_def str_int_def
  digits.simps

lemma p_get_scripted:
  "request_count w < length rs \<Longrightarrow> rs ! request_count w = Inr r
     \<Longrightarrow> p_get (scripted rs) u w = (Inr r, w @ [Get u])"
  by (simp add: p_get_first scripted_def)

lemma p_get_script_used_up:
  "length rs \<le> request_count w
     \<Longrightarrow> p_get (scripted rs) u w = (Inl (RequestException ''ConnectionError''), w @ exhausted_trace u)"
  by (simp add: p_get_def numeral_3_eq_3 scripted_def request_count_simps exhausted_trace_def)

lemma transport_fails_script_used_up:
  "length rs \<le> n \<Longrightarrow> transport_fails (scripted rs) n u"
  by (simp add: transport_fails_def scripted_def)

lemma lookup_available:
  "lookup_closest (available a ts) = Inr (PStr a, PStr ts)"
  by (simp add: lookup_closest_def raise_for_status_def available_def)

lemma lookup_unavailable:
  "lookup_closest unavailable = Inr (PNone, PNone)"
  by (simp add: lookup_closest_def raise_for_status_def unavailable_def)

lemma wayback_lookup_scripted:
  assumes "rs \<noteq> []" and "rs ! 0 = Inr r" and "lookup_closest r = Inr found"
  shows "wayback_lookup (scripted rs) site 2020 6 [] = (Inr found, [Get lookup_url])"
  using assms
  by (simp add: wayback_lookup_def api_url_site p_get_scripted request_count_simps site_nonempty)

lemma run_archive_ok:
  "collect_dual net_archive_ok site 2020 6 []
     = (Inr out_archive_ok, [Get lookup_url, Get (PStr snap), Get (PStr site)])"
proof -
  have look: "wayback_lookup net_archive_ok site 2020 6 []
                = (Inr (PStr snap, PStr snap_ts), [Get lookup_url])"
    unfolding net_archive_ok_def by (rule wayback_lookup_scripted [OF _ _ lookup_available]) simp_all
  have arch: "fetch_archived net_archive_ok (PStr snap) [Get lookup_url]
                = (Inr (Some (replicate 801 CHR ''a''), 200), [Get lookup_url, Get (PStr snap)])"
    by (simp add: fetch_archived_def p_get_scripted request_count_simps net_archive_ok_def
        page_def MIN_GOOD_LEN_def snap_nonempty)
  have live: "fetch_live net_archive_ok site [Get lookup_url, Get (PStr snap)]
                = (Inr (None, 503), [Get lookup_url, Get (PStr snap), Get (PStr site)])"
    by (simp add: fetch_live_def p_get_scripted request_count_simps net_archive_ok_def
        page_def site_nonempty)
  show ?thesis
    by (simp add: collect_dual_def archive_first_def live_redundancy_def look arch live
        choose_authoritative_def MIN_GOOD_LEN_def out_archive_ok_def sample_defs snap_nonempty)
qed

lemma run_800:
  "collect_dual net_800 site 2020 6 []
     = (Inr out_boundary, [Get lookup_url, Get (PStr snap), Get (PStr site)])"
proof -
  have look: "wayback_lookup net_800 site 2020 6 []
                = (Inr (PStr snap, PStr snap_ts), [Get lookup_url])"
    unfolding net_800_def by (rule wayback_lookup_scripted [OF _ _ lookup_available]) simp_all
  have arch: "fetch_archived net_800 (PStr snap) [Get lookup_url]
                = (Inr (None, 200), [Get lookup_url, Get (PStr snap)])"
    by (simp add: fetch_archived_def p_get_scripted request_count_simps net_800_def
        page_def MIN_GOOD_LEN_def snap_nonempty)
  have live: "fetch_live net_800 site [Get lookup_url, Get (PStr snap)]
                = (Inr (None, 200), [Get lookup_url, Get (PStr snap), Get (PStr site)])"
    by (simp add: fetch_live_def p_get_scripted request_count_simps net_800_def
        page_def site_nonempty)
  show ?thesis
    by (simp add: collect_dual_def archive_first_def live_redundancy_def look arch live
        choose_authoritative_def MIN_GOOD_LEN_def out_boundary_def sample_defs snap_nonempty)
qed

lemma run_799_800:
  "collect_dual net_799_800 site 2020 6 []
     = (Inr out_boundary, [Get lookup_url, Get (PStr snap), Get (PStr site)])"
proof -
  have look: "wayback_lookup net_799_800 site 2020 6 []
                = (Inr (PStr snap, PStr snap_ts), [Get lookup_url])"
    unfolding net_799_800_def by (rule wayback_lookup_scripted [OF _ _ lookup_available]) simp_all
  have arch: "fetch_archived net_799_800 (PStr snap) [Get lookup_url]
                = (Inr (None, 200), [Get lookup_url, Get (PStr snap)])"
    by (simp add: fetch_archived_def p_get_scripted request_count_simps net_799_800_def
        page_def MIN_GOOD_LEN_def snap_nonempty)
  have live: "fetch_live net_799_800 site [Get lookup_url, Get (PStr snap)]
                = (Inr (None, 200), [Get lookup_url, Get (PStr snap), Get (PStr site)])"
    by (simp add: fetch_live_def p_get_scripted request_count_simps net_799_800_def
        page_def MIN_GOOD_LEN_def site_nonempty)
  show ?thesis
    by (simp add: collect_dual_def archive_first_def live_redundancy_def look arch live
        choose_authoritative_def MIN_GOOD_LEN_def out_boundary_def sample_defs snap_nonempty)
qed

lemma lookup_no_snapshot:
  "wayback_lookup net_no_snapshot site 2020 6 [] = (Inr (PNone, PNone), [Get lookup_url])"
  unfolding net_no_snapshot_def by (rule wayback_lookup_scripted [OF _ _ lookup_unavailable]) simp_all

lemma run_no_snapshot:
  "collect_dual net_no_snapshot site 2020 6 []
     = (Inr out_live_ok, [Get lookup_url, Get (PStr site)])"
proof -
  have live: "fetch_live net_no_snapshot site [Get lookup_url]
                = (Inr (Some (replicate 1000 CHR ''a''), 200), [Get lookup_url, Get (PStr site)])"
    by (simp add: fetch_live_def p_get_scripted request_count_simps net_no_snapshot_def
        page_def MIN_GOOD_LEN_def site_nonempty)
  show ?thesis
    by (simp add: collect_dual_def archive_first_def live_redundancy_def lookup_no_snapshot live
        choose_authoritative_def MIN_GOOD_LEN_def out_live_ok_def sample_defs)
qed

lemma run_down:
  "collect_dual net_down site 2020 6 []
     = (Inr out_none, exhausted_trace lookup_url @ exhausted_trace (PStr site))"
proof -
  have look: "wayback_lookup net_down site 2020 6 [] = (Inr (PNone, PNone), exhausted_trace lookup_url)"
    by (simp add: wayback_lookup_def api_url_site p_get_script_used_up net_down_def site_nonempty)
  have live: "fetch_live net_down site (exhausted_trace lookup_url)
                = (Inr (None, 0), exhausted_trace lookup_url @ exhausted_trace (PStr site))"
    by (simp add: fetch_live_def p_get_script_used_up net_down_def site_nonempty)
  show ?thesis
    by (simp add: collect_dual_def archive_first_def live_redundancy_def look live
        choose_authoritative_def MIN_GOOD_LEN_def out_none_def sample_defs)
qed



section \<open>The claims\<close>

text \<open>
  C1. In every record that \<open>collect_dual\<close> returns, the provenance is \<open>archive\<close> exactly
  when the archive body has at least \<open>MIN_GOOD_LEN\<close> characters; when it has not, the
  provenance is \<open>live\<close> exactly when the live body has at least \<open>MIN_GOOD_LEN\<close>
  characters; otherwise it is \<open>none\<close>. The reason code is the one that belongs to the
  provenance.
\<close>

theorem collect_dual_provenance_invariant:
  assumes "collect_dual net url year month w = (Inr out, w')"
  shows "(chosen_provenance out = ''archive'' \<longleftrightarrow> MIN_GOOD_LEN \<le> length (archive_html out))
       \<and> (\<not> MIN_GOOD_LEN \<le> length (archive_html out) \<longrightarrow>
            (chosen_provenance out = ''live'' \<longleftrightarrow> MIN_GOOD_LEN \<le> length (live_html out)))
       \<and> (\<not> MIN_GOOD_LEN \<le> length (archive_html out) \<and> \<not> MIN_GOOD_LEN \<le> length (live_html out) \<longrightarrow>
            chosen_provenance out = ''none'')
       \<and> (chosen_provenance out = ''archive'' \<and> reason out = ''archive_ok''
          \<or> chosen_provenance out = ''live'' \<and> reason out = ''archive_missing_or_small_live_ok''
          \<or> chosen_provenance out = ''none'' \<and> reason out = ''both_missing_or_small'')"
proof -
  from assms obtain pre where "out = choose_authoritative pre"
    by (rule collect_dual_returns)
  then show ?thesis
    by (simp add: choose_authoritative_def)
qed

theorem collect_dual_provenance_invariant_witness:
  "collect_dual net_archive_ok site 2020 6 []
     = (Inr out_archive_ok, [Get lookup_url, Get (PStr snap), Get (PStr site)])
   \<and> chosen_provenance out_archive_ok = ''archive''
   \<and> MIN_GOOD_LEN \<le> length (archive_html out_archive_ok)
   \<and> reason out_archive_ok = ''archive_ok''"
  using run_archive_ok collect_dual_provenance_invariant [OF run_archive_ok]
  by (simp add: out_archive_ok_def)

text \<open>
  C2. The archive service reports a snapshot, the snapshot is served with status 200 and
  a body of exactly 800 characters, and the live page is empty: the claim expects the
  provenance \<open>archive\<close>, and \<open>collect_dual\<close> returns \<open>none\<close> with an empty archive
  body, because \<open>fetch_archived\<close> keeps a body only when it is longer than
  \<open>MIN_GOOD_LEN\<close>. With a body of 799 characters from the archive and of 800
  characters from the live site the claim expects \<open>live\<close>, and the result is
  \<open>none\<close> again.
\<close>

theorem threshold_boundary_both_none:
  "MIN_GOOD_LEN = 800
   \<and> fst (collect_dual net_800 site 2020 6 []) = Inr out_boundary
   \<and> fst (collect_dual net_799_800 site 2020 6 []) = Inr out_boundary
   \<and> chosen_provenance out_boundary = ''none''
   \<and> reason out_boundary = ''both_missing_or_small''
   \<and> archive_html out_boundary = []
   \<and> live_html out_boundary = []"
  by (simp add: run_800 run_799_800 out_boundary_def MIN_GOOD_LEN_def)

text \<open>
  C3. The selection step of \<open>collect_dual\<close>, applied to any record whatever (any two
  body lengths, any status fields), gives the provenance and the reason that the decision
  table of the specification gives for the two truth values "the archive body has at
  least \<open>MIN_GOOD_LEN\<close> characters" and "the live body has at least \<open>MIN_GOOD_LEN\<close>
  characters". So two records that agree on the two truth values get the same provenance
  and reason, whatever else they hold; the step changes no other field; and every record
  that \<open>collect_dual\<close> returns comes out of this step.
\<close>

theorem selection_determined_by_lengths:
  "(chosen_provenance (choose_authoritative s), reason (choose_authoritative s))
      = decision_table (MIN_GOOD_LEN \<le> length (archive_html s))
          (MIN_GOOD_LEN \<le> length (live_html s))
   \<and> (chosen_provenance (choose_authoritative (s\<lparr>archive_html := replicate a x, live_html := replicate l y\<rparr>)),
       reason (choose_authoritative (s\<lparr>archive_html := replicate a x, live_html := replicate l y\<rparr>)))
      = decision_table (MIN_GOOD_LEN \<le> a) (MIN_GOOD_LEN \<le> l)
   \<and> ((MIN_GOOD_LEN \<le> length (archive_html s) \<longleftrightarrow> MIN_GOOD_LEN \<le> length (archive_html s'))
        \<and> (MIN_GOOD_LEN \<le> length (live_html s) \<longleftrightarrow> MIN_GOOD_LEN \<le> length (live_html s'))
      \<longrightarrow> chosen_provenance (choose_authoritative s) = chosen_provenance (choose_authoritative s')
          \<and> reason (choose_authoritative s) = reason (choose_authoritative s'))
   \<and> choose_authoritative s
      = s\<lparr>chosen_provenance := chosen_provenance (choose_authoritative s),
           reason := reason (choose_authoritative s)\<rparr>
   \<and> (collect_dual net url year month w = (Inr out, w')
      \<longrightarrow> (\<exists>pre. out = choose_authoritative pre))"
proof -
  have table: "(chosen_provenance (choose_authoritative r), reason (choose_authoritative r))
      = decision_table (MIN_GOOD_LEN \<le> length (archive_html r))
          (MIN_GOOD_LEN \<le> length (live_html r))" for r
    by (simp add: choose_authoritative_def decision_table_def)
  have lengths: "(chosen_provenance (choose_authoritative (s\<lparr>archive_html := replicate a x, live_html := replicate l y\<rparr>)),
       reason (choose_authoritative (s\<lparr>archive_html := replicate a x, live_html := replicate l y\<rparr>)))
      = decision_table (MIN_GOOD_LEN \<le> a) (MIN_GOOD_LEN \<le> l)"
    using table [of "s\<lparr>archive_html := replicate a x, live_html := replicate l y\<rparr>"]
    by simp
  have same: "chosen_provenance (choose_authoritative s) = chosen_provenance (choose_authoritative s')
          \<and> reason (choose_authoritative s) = reason (choose_authoritative s')"
    if agree: "(MIN_GOOD_LEN \<le> length (archive_html s) \<longleftrightarrow> MIN_GOOD_LEN \<le> length (archive_html s'))
        \<and> (MIN_GOOD_LEN \<le> length (live_html s) \<longleftrightarrow> MIN_GOOD_LEN \<le> length (live_html s'))"
  proof -
    note table [of s]
    also have "decision_table (MIN_GOOD_LEN \<le> length (archive_html s))
                 (MIN_GOOD_LEN \<le> length (live_html s))
               = decision_table (MIN_GOOD_LEN \<le> length (archive_html s'))
                 (MIN_GOOD_LEN \<le> length (live_html s'))"
      using agree by simp
    also note table [of s', symmetric]
    finally show ?thesis by simp
  qed
  have others: "choose_authoritative s
      = s\<lparr>chosen_provenance := chosen_provenance (choose_authoritative s),
           reason := reason (choose_authoritative s)\<rparr>"
    by (simp add: choose_authoritative_def)
  have run: "\<exists>pre. out = choose_authoritative pre"
    if "collect_dual net url year month w = (Inr out, w')"
  proof -
    from that obtain pre where "out = choose_authoritative pre"
      by (rule collect_dual_returns)
    then show ?thesis by blast
  qed
  from table [of s] lengths same others run show ?thesis
    by blast
qed

theorem selection_determined_by_lengths_witness:
  "length (archive_html sel_800_503) = MIN_GOOD_LEN
   \<and> MIN_GOOD_LEN < length (archive_html sel_900_200)
   \<and> length (live_html sel_800_503) < MIN_GOOD_LEN
   \<and> length (live_html sel_900_200) < MIN_GOOD_LEN
   \<and> status_archive sel_800_503 \<noteq> status_archive sel_900_200
   \<and> status_live sel_800_503 \<noteq> status_live sel_900_200
   \<and> chosen_provenance (choose_authoritative sel_800_503) = ''archive''
   \<and> reason (choose_authoritative sel_800_503) = ''archive_ok''
   \<and> chosen_provenance (choose_authoritative sel_900_200) = ''archive''
   \<and> reason (choose_authoritative sel_900_200) = ''archive_ok''"
proof -
  note t = selection_determined_by_lengths [where s = sel_800_503 and s' = sel_900_200]
  have a: "length (archive_html sel_800_503) = MIN_GOOD_LEN"
    and b: "MIN_GOOD_LEN < length (archive_html sel_900_200)"
    and c: "length (live_html sel_800_503) < MIN_GOOD_LEN"
    and d: "length (live_html sel_900_200) < MIN_GOOD_LEN"
    by (simp_all add: sel_800_503_def sel_900_200_def initial_out_def MIN_GOOD_LEN_def)
  have e: "status_archive sel_800_503 \<noteq> status_archive sel_900_200"
    and f: "status_live sel_800_503 \<noteq> status_live sel_900_200"
    by (simp_all add: sel_800_503_def sel_900_200_def initial_out_def)
  from t [THEN conjunct1] a
  have g: "chosen_provenance (choose_authoritative sel_800_503) = ''archive''
           \<and> reason (choose_authoritative sel_800_503) = ''archive_ok''"
    by (simp add: decision_table_def)
  from t [THEN conjunct2, THEN conjunct2, THEN conjunct1] a b c d
  have "chosen_provenance (choose_authoritative sel_800_503)
          = chosen_provenance (choose_authoritative sel_900_200)
        \<and> reason (choose_authoritative sel_800_503) = reason (choose_authoritative sel_900_200)"
    by simp
  with g have h: "chosen_provenance (choose_authoritative sel_900_200) = ''archive''
           \<and> reason (choose_authoritative sel_900_200) = ''archive_ok''"
    by simp
  from a b c d e f g h show ?thesis
    by blast
qed

text \<open>
  C9. In every record that \<open>collect_dual\<close> returns, the archive body and the live body
  are each either empty or longer than \<open>MIN_GOOD_LEN\<close>: no body of 1 to
  \<open>MIN_GOOD_LEN\<close> characters is recorded.
\<close>

theorem bodies_empty_or_long:
  assumes "collect_dual net url year month w = (Inr out, w')"
  shows "(archive_html out = [] \<or> MIN_GOOD_LEN < length (archive_html out))
       \<and> (live_html out = [] \<or> MIN_GOOD_LEN < length (live_html out))
       \<and> \<not> (1 \<le> length (archive_html out) \<and> length (archive_html out) \<le> MIN_GOOD_LEN)
       \<and> \<not> (1 \<le> length (live_html out) \<and> length (live_html out) \<le> MIN_GOOD_LEN)"
proof -
  from assms obtain a_url ts w1 w2 html_l code_l pre where
    live: "fetch_live net url w2 = (Inr (html_l, code_l), w')"
    and out: "out = choose_authoritative
             (pre\<lparr>live_html := html_or_empty html_l, status_live := str_code_or_empty code_l\<rparr>)"
    and pre: "\<not> truthy a_url \<and> w2 = w1 \<and> pre = initial_out
     \<or> truthy a_url \<and> (\<exists>html_a code_a.
          fetch_archived net a_url w1 = (Inr (html_a, code_a), w2)
          \<and> pre = initial_out\<lparr>archive_html := html_or_empty html_a,
                               status_archive := str_code_or_empty code_a,
                               archive_url := a_url,
                               snapshot_ts := ts_or_empty ts\<rparr>)"
    by (rule collect_dual_returns)
  have l: "html_or_empty html_l = [] \<or> MIN_GOOD_LEN < length (html_or_empty html_l)"
    using fetch_live_body [of net url w2 _ code_l w'] live
    by (cases html_l) (simp_all add: html_or_empty_cases)
  have a: "archive_html pre = [] \<or> MIN_GOOD_LEN < length (archive_html pre)"
  proof -
    { fix html_a code_a
      assume "fetch_archived net a_url w1 = (Inr (html_a, code_a), w2)"
      then have "html_or_empty html_a = [] \<or> MIN_GOOD_LEN < length (html_or_empty html_a)"
        using fetch_archived_body [of net a_url w1 _ code_a w2]
        by (cases html_a) (simp_all add: html_or_empty_cases) }
    with pre show ?thesis
      by (auto simp: initial_out_def)
  qed
  from a l out show ?thesis
    by (auto simp: choose_authoritative_fields)
qed

theorem bodies_empty_or_long_witness:
  "collect_dual net_no_snapshot site 2020 6 []
     = (Inr out_live_ok, [Get lookup_url, Get (PStr site)])
   \<and> archive_html out_live_ok = []
   \<and> MIN_GOOD_LEN < length (live_html out_live_ok)"
  using run_no_snapshot bodies_empty_or_long [OF run_no_snapshot]
  by (simp add: out_live_ok_def)

lemma initial_out_fields:
  "archive_html initial_out = []" "status_archive initial_out = []"
  "archive_url initial_out = PStr []" "snapshot_ts initial_out = PStr []"
  "live_html initial_out = []" "status_live initial_out = []"
  by (simp_all add: initial_out_def)

text \<open>
  C4. The live fetch is made in every run that returns, whatever the archive branch did:
  the returned record's \<open>live_html\<close> and \<open>status_live\<close> are those of the call of
  \<open>fetch_live\<close> on the caller's URL that follows the archive branch, the run ends
  with that call, and for a non-empty URL the call sends a request to it.
\<close>

theorem live_always_attempted:
  assumes "collect_dual net url year month w = (Inr out, w')"
  shows "\<exists>pre w2 html_l code_l.
           archive_first net url year month initial_out w = (Inr pre, w2)
         \<and> fetch_live net url w2 = (Inr (html_l, code_l), w')
         \<and> live_html out = html_or_empty html_l
         \<and> status_live out = str_code_or_empty code_l
         \<and> (url \<noteq> [] \<longrightarrow> Get (PStr url) \<in> set (drop (length w2) w'))"
proof -
  from assms obtain a_url ts w1 w2 html_l code_l pre where
    pre: "archive_first net url year month initial_out w = (Inr pre, w2)"
    and live: "fetch_live net url w2 = (Inr (html_l, code_l), w')"
    and out: "out = choose_authoritative
             (pre\<lparr>live_html := html_or_empty html_l, status_live := str_code_or_empty code_l\<rparr>)"
    by (rule collect_dual_returns)
  from fetch_live_trace [of net url w2] live obtain evs where
    evs: "w' = w2 @ evs" "url \<noteq> [] \<longrightarrow> Get (PStr url) \<in> set evs"
    by auto
  have "live_html out = html_or_empty html_l" "status_live out = str_code_or_empty code_l"
    using out by (simp_all add: choose_authoritative_fields)
  moreover have "url \<noteq> [] \<longrightarrow> Get (PStr url) \<in> set (drop (length w2) w')"
    using evs by simp
  ultimately show ?thesis
    using pre live by blast
qed

theorem live_always_attempted_witness:
  "collect_dual net_archive_ok site 2020 6 []
     = (Inr out_archive_ok, [Get lookup_url, Get (PStr snap), Get (PStr site)])
   \<and> chosen_provenance out_archive_ok = ''archive''
   \<and> status_live out_archive_ok = ''503''
   \<and> Get (PStr site) \<in> set [Get lookup_url, Get (PStr snap), Get (PStr site)]"
proof -
  from live_always_attempted [OF run_archive_ok] obtain w2 :: world where
    "site \<noteq> [] \<longrightarrow>
       Get (PStr site) \<in> set (drop (length w2) [Get lookup_url, Get (PStr snap), Get (PStr site)])"
    by blast
  with site_nonempty
  have sent: "Get (PStr site) \<in> set [Get lookup_url, Get (PStr snap), Get (PStr site)]"
    by (blast dest: in_set_dropD)
  have "chosen_provenance out_archive_ok = ''archive''" "status_live out_archive_ok = ''503''"
    by (simp_all add: out_archive_ok_def)
  with run_archive_ok sent show ?thesis
    by blast
qed

text \<open>
  C5. When \<open>wayback_lookup\<close> returns (None, None), the rest of \<open>collect_dual\<close> is the
  live fetch and the selection: no archive fetch is made (every request after the lookup
  goes to the caller's URL), the archive fields of the returned record are still empty,
  and the provenance is \<open>live\<close> or \<open>none\<close> according to the live body.
\<close>

theorem no_archive_found:
  assumes "wayback_lookup net url year month w = (Inr (PNone, PNone), w1)"
  shows "collect_dual net url year month w =
           (case fetch_live net url w1 of
              (Inl e, w') \<Rightarrow> (Inl e, w')
            | (Inr (html_l, code_l), w') \<Rightarrow>
                (Inr (initial_out
                   \<lparr>live_html := html_or_empty html_l,
                    status_live := str_code_or_empty code_l,
                    chosen_provenance :=
                      (if MIN_GOOD_LEN \<le> length (html_or_empty html_l) then ''live'' else ''none''),
                    reason :=
                      (if MIN_GOOD_LEN \<le> length (html_or_empty html_l)
                       then ''archive_missing_or_small_live_ok'' else ''both_missing_or_small'')\<rparr>), w'))
       \<and> (\<forall>out w'. collect_dual net url year month w = (Inr out, w') \<longrightarrow>
             archive_html out = [] \<and> status_archive out = [] \<and> archive_url out = PStr []
             \<and> (chosen_provenance out = ''live'' \<longleftrightarrow> MIN_GOOD_LEN \<le> length (live_html out))
             \<and> (chosen_provenance out = ''none'' \<longleftrightarrow> \<not> MIN_GOOD_LEN \<le> length (live_html out)))
       \<and> (\<forall>ev \<in> set (drop (length w1) (snd (collect_dual net url year month w))).
             is_get ev \<longrightarrow> ev = Get (PStr url))"
proof -
  have arch: "archive_first net url year month initial_out w = (Inr initial_out, w1)"
    using assms by (simp add: archive_first_def)
  have eq: "collect_dual net url year month w =
           (case fetch_live net url w1 of
              (Inl e, w') \<Rightarrow> (Inl e, w')
            | (Inr (html_l, code_l), w') \<Rightarrow>
                (Inr (initial_out
                   \<lparr>live_html := html_or_empty html_l,
                    status_live := str_code_or_empty code_l,
                    chosen_provenance :=
                      (if MIN_GOOD_LEN \<le> length (html_or_empty html_l) then ''live'' else ''none''),
                    reason :=
                      (if MIN_GOOD_LEN \<le> length (html_or_empty html_l)
                       then ''archive_missing_or_small_live_ok'' else ''both_missing_or_small'')\<rparr>), w'))"
  proof (cases "fetch_live net url w1")
    case (Pair res w')
    show ?thesis
    proof (cases res)
      case (Inl e)
      with Pair show ?thesis
        by (simp add: collect_dual_def arch live_redundancy_def)
    next
      case (Inr p)
      obtain html_l code_l where "p = (html_l, code_l)"
        by (cases p)
      with Pair Inr show ?thesis
        by (simp add: collect_dual_def arch live_redundancy_def choose_authoritative_def
            initial_out_fields MIN_GOOD_LEN_def)
    qed
  qed
  have fields: "archive_html out = [] \<and> status_archive out = [] \<and> archive_url out = PStr []
             \<and> (chosen_provenance out = ''live'' \<longleftrightarrow> MIN_GOOD_LEN \<le> length (live_html out))
             \<and> (chosen_provenance out = ''none'' \<longleftrightarrow> \<not> MIN_GOOD_LEN \<le> length (live_html out))"
    if "collect_dual net url year month w = (Inr out, w')" for out w'
    using that unfolding eq
    by (auto simp: initial_out_fields split: prod.splits sum.splits if_splits)
  have "snd (collect_dual net url year month w) = snd (fetch_live net url w1)"
    unfolding eq by (simp split: prod.splits sum.splits)
  moreover from fetch_live_trace [of net url w1] obtain evs where
    "snd (fetch_live net url w1) = w1 @ evs" "\<forall>ev \<in> set evs. is_get ev \<longrightarrow> ev = Get (PStr url)"
    by blast
  ultimately have trace: "\<forall>ev \<in> set (drop (length w1) (snd (collect_dual net url year month w))).
             is_get ev \<longrightarrow> ev = Get (PStr url)"
    by simp
  from eq fields trace show ?thesis by blast
qed

theorem no_archive_found_witness:
  "wayback_lookup net_no_snapshot site 2020 6 [] = (Inr (PNone, PNone), [Get lookup_url])
   \<and> collect_dual net_no_snapshot site 2020 6 []
       = (Inr out_live_ok, [Get lookup_url, Get (PStr site)])
   \<and> archive_html out_live_ok = []
   \<and> chosen_provenance out_live_ok = ''live''"
proof -
  note t = no_archive_found [OF lookup_no_snapshot]
  from t [THEN conjunct2, THEN conjunct1, rule_format, OF run_no_snapshot]
  have "archive_html out_live_ok = []"
    and "chosen_provenance out_live_ok = ''live'' \<longleftrightarrow> MIN_GOOD_LEN \<le> length (live_html out_live_ok)"
    by blast+
  moreover have "MIN_GOOD_LEN \<le> length (live_html out_live_ok)"
    by (simp add: out_live_ok_def MIN_GOOD_LEN_def)
  ultimately show ?thesis
    using lookup_no_snapshot run_no_snapshot by blast
qed

text \<open>
  C6. For the empty URL, \<open>fetch_live\<close> and \<open>fetch_archived\<close> return (None, 0) and
  \<open>wayback_lookup\<close> returns (None, None), each without a request (the trace is
  unchanged), and \<open>collect_dual\<close> returns the provenance \<open>none\<close> with the reason
  \<open>both_missing_or_small\<close>.
\<close>

theorem empty_url_both_missing:
  "fetch_live net [] w = (Inr (None, 0), w)
   \<and> fetch_archived net (PStr []) w = (Inr (None, 0), w)
   \<and> wayback_lookup net [] year month w = (Inr (PNone, PNone), w)
   \<and> collect_dual net [] year month w = (Inr out_none, w)
   \<and> chosen_provenance out_none = ''none''
   \<and> reason out_none = ''both_missing_or_small''"
  by (simp add: fetch_live_def fetch_archived_def wayback_lookup_def collect_dual_def
      archive_first_def live_redundancy_def choose_authoritative_def out_none_def
      initial_out_def html_or_empty_def str_code_or_empty_def MIN_GOOD_LEN_def)



subsection \<open>Exceptions that leave the fetch functions\<close>

lemma get_loop_raises:
  assumes "\<And>n e. net n url = Inl e \<Longrightarrow> is_request_exception e"
    and "\<And>e. last_exc = Some e \<Longrightarrow> is_request_exception e"
    and "fst (get_loop net url b left i last_exc w) = Inl e"
  shows "is_request_exception e"
  using assms(2,3)
proof (induction left arbitrary: i last_exc w)
  case 0
  then show ?case by (cases last_exc) auto
next
  case (Suc left)
  show ?case
  proof (cases "net (request_count w) url")
    case (Inr r)
    with Suc.prems(2) show ?thesis by simp
  next
    case (Inl e')
    then have req: "is_request_exception e'" by (rule assms(1))
    with Inl Suc.prems(2)
    have "fst (get_loop net url b left (Suc i) (Some e') (w @ [Get url, Sleep (b * 2 ^ i)])) = Inl e"
      by simp
    with req show ?thesis
      using Suc.IH [of "Some e'" "Suc i" "w @ [Get url, Sleep (b * 2 ^ i)]"] by simp
  qed
qed

lemma p_get_raises:
  assumes "\<And>n e. net n url = Inl e \<Longrightarrow> is_request_exception e"
    and "fst (p_get net url w) = Inl e"
  shows "is_request_exception e"
  using get_loop_raises [of net url None "3 / 4" 3 0 w e] assms
  by (simp add: p_get_def)

lemma fetch_live_returns:
  assumes "\<And>n e. net n (PStr url) = Inl e \<Longrightarrow> is_request_exception e"
  shows "\<exists>html code. fst (fetch_live net url w) = Inr (html, code)"
proof (cases "url = []")
  case True
  then show ?thesis by (simp add: fetch_live_def)
next
  case False
  obtain res w' where get: "p_get net (PStr url) w = (res, w')"
    by (cases "p_get net (PStr url) w")
  show ?thesis
  proof (cases res)
    case (Inr r)
    with get False show ?thesis by (simp add: fetch_live_def)
  next
    case (Inl e)
    with get have "is_request_exception e"
      using p_get_raises [of net "PStr url" w e] assms by simp
    with Inl get False show ?thesis by (simp add: fetch_live_def)
  qed
qed

lemma fetch_archived_returns:
  assumes "\<And>n e. net n a = Inl e \<Longrightarrow> is_request_exception e"
  shows "\<exists>html code. fst (fetch_archived net a w) = Inr (html, code)"
proof (cases "truthy a")
  case False
  then show ?thesis by (simp add: fetch_archived_def)
next
  case True
  obtain res w' where get: "p_get net a w = (res, w')"
    by (cases "p_get net a w")
  show ?thesis
  proof (cases res)
    case (Inr r)
    with get True show ?thesis by (simp add: fetch_archived_def)
  next
    case (Inl e)
    with get have "is_request_exception e"
      using p_get_raises [of net a w e] assms by simp
    with Inl get True show ?thesis by (simp add: fetch_archived_def)
  qed
qed

text \<open>
  \<open>collect_dual\<close> returns a record whenever the lookup returns and the transport raises
  nothing but \<open>RequestException\<close>s.
\<close>

lemma collect_dual_total:
  assumes net: "\<And>n u e. net n u = Inl e \<Longrightarrow> is_request_exception e"
    and look: "fst (wayback_lookup net url year month w) = Inr found"
  shows "\<exists>out. fst (collect_dual net url year month w) = Inr out"
proof -
  obtain a_url ts where found: "found = (a_url, ts)"
    by (cases found)
  obtain w1 where look': "wayback_lookup net url year month w = (Inr (a_url, ts), w1)"
    using look found by (cases "wayback_lookup net url year month w") simp
  have "\<exists>pre w2. archive_first net url year month initial_out w = (Inr pre, w2)"
  proof (cases "truthy a_url")
    case False
    with look' show ?thesis by (simp add: archive_first_def)
  next
    case True
    from fetch_archived_returns [of net a_url w1] net
    obtain html_a code_a w2 where "fetch_archived net a_url w1 = (Inr (html_a, code_a), w2)"
      by (cases "fetch_archived net a_url w1") auto
    with True look' show ?thesis by (simp add: archive_first_def)
  qed
  then obtain pre w2 where pre: "archive_first net url year month initial_out w = (Inr pre, w2)"
    by blast
  from fetch_live_returns [of net url w2] net
  obtain html_l code_l w3 where "fetch_live net url w2 = (Inr (html_l, code_l), w3)"
    by (cases "fetch_live net url w2") auto
  with pre show ?thesis
    by (simp add: collect_dual_def live_redundancy_def)
qed

lemma transport_fails_always:
  assumes "\<And>n u. raises_request_exception (net n u)"
  shows "transport_fails net n u"
  using assms by (simp add: transport_fails_def)

text \<open>
  C7. When the three attempts of \<open>_get\<close> all raise a \<open>RequestException\<close>,
  \<open>fetch_live\<close> and \<open>fetch_archived\<close> return (None, 0) and \<open>wayback_lookup\<close> returns
  (None, None). With a transport that fails on every request \<open>collect_dual\<close> raises
  nothing and returns the record with empty fields, provenance \<open>none\<close> and reason
  \<open>both_missing_or_small\<close>. More generally, no transport failure makes
  \<open>collect_dual\<close> raise: when the transport raises nothing but
  \<open>RequestException\<close>s and the lookup returns, \<open>collect_dual\<close> returns a record.
\<close>

theorem retry_exhaustion:
  "(url \<noteq> [] \<and> transport_fails net (request_count w) (PStr url)
      \<longrightarrow> fetch_live net url w = (Inr (None, 0), w @ exhausted_trace (PStr url)))
   \<and> (truthy a \<and> transport_fails net (request_count w) a
      \<longrightarrow> fetch_archived net a w = (Inr (None, 0), w @ exhausted_trace a))
   \<and> (url \<noteq> [] \<and> transport_fails net (request_count w)
                      (PStr (api_url url (p_mid_month_timestamp year month)))
      \<longrightarrow> wayback_lookup net url year month w
            = (Inr (PNone, PNone),
               w @ exhausted_trace (PStr (api_url url (p_mid_month_timestamp year month)))))
   \<and> ((\<forall>n u. raises_request_exception (net n u))
      \<longrightarrow> fst (collect_dual net url year month w) = Inr out_none)
   \<and> ((\<forall>n u e. net n u = Inl e \<longrightarrow> is_request_exception e)
        \<and> (\<exists>found. fst (wayback_lookup net url year month w) = Inr found)
      \<longrightarrow> (\<exists>out. fst (collect_dual net url year month w) = Inr out))"
proof -
  have all_down: "fst (collect_dual net url year month w) = Inr out_none"
    if down: "\<forall>n u. raises_request_exception (net n u)"
  proof (cases "url = []")
    case True
    then show ?thesis
      by (simp add: fetch_live_def wayback_lookup_def collect_dual_def
          archive_first_def live_redundancy_def choose_authoritative_def out_none_def
          initial_out_def html_or_empty_def str_code_or_empty_def MIN_GOOD_LEN_def)
  next
    case False
    let ?api = "PStr (api_url url (p_mid_month_timestamp year month))"
    have look: "wayback_lookup net url year month w = (Inr (PNone, PNone), w @ exhausted_trace ?api)"
      using False down by (intro wayback_lookup_exhausted transport_fails_always) simp_all
    have live: "fetch_live net url (w @ exhausted_trace ?api)
                  = (Inr (None, 0), (w @ exhausted_trace ?api) @ exhausted_trace (PStr url))"
      using False down by (intro fetch_live_exhausted transport_fails_always) simp_all
    have arch: "archive_first net url year month initial_out w = (Inr initial_out, w @ exhausted_trace ?api)"
      using look by (simp add: archive_first_def)
    have "fst (collect_dual net url year month w)
            = Inr (choose_authoritative (initial_out\<lparr>live_html := [], status_live := []\<rparr>))"
      by (simp add: collect_dual_def arch live_redundancy_def live html_or_empty_def
          str_code_or_empty_def)
    also have "choose_authoritative (initial_out\<lparr>live_html := [], status_live := []\<rparr>) = out_none"
      by (simp add: choose_authoritative_def out_none_def initial_out_def MIN_GOOD_LEN_def)
    finally show ?thesis .
  qed
  have total: "\<exists>out. fst (collect_dual net url year month w) = Inr out"
    if "(\<forall>n u e. net n u = Inl e \<longrightarrow> is_request_exception e)
        \<and> (\<exists>found. fst (wayback_lookup net url year month w) = Inr found)"
  proof -
    from that obtain found where "fst (wayback_lookup net url year month w) = Inr found"
      by blast
    moreover from that have "\<And>n u e. net n u = Inl e \<Longrightarrow> is_request_exception e"
      by blast
    ultimately show ?thesis
      by (rule collect_dual_total [rotated])
  qed
  show ?thesis
    using fetch_live_exhausted [of url net w] fetch_archived_exhausted [of a net w]
      wayback_lookup_exhausted [of url net w year month] all_down total
    by blast
qed

theorem retry_exhaustion_witness:
  "transport_fails net_down (request_count []) (PStr site)
   \<and> fetch_live net_down site [] = (Inr (None, 0), exhausted_trace (PStr site))
   \<and> transport_fails net_down (request_count []) lookup_url
   \<and> wayback_lookup net_down site 2020 6 [] = (Inr (PNone, PNone), exhausted_trace lookup_url)
   \<and> fst (collect_dual always_down site 2020 6 []) = Inr out_none"
proof -
  note t = retry_exhaustion [where net = net_down and url = site and w = "[]" and year = 2020
      and month = 6 and a = PNone]
  have f1: "transport_fails net_down (request_count []) (PStr site)"
    and f2: "transport_fails net_down (request_count []) lookup_url"
    by (simp_all add: net_down_def transport_fails_script_used_up)
  from t [THEN conjunct1] site_nonempty f1
  have a: "fetch_live net_down site [] = (Inr (None, 0), exhausted_trace (PStr site))"
    by simp
  from t [THEN conjunct2, THEN conjunct2, THEN conjunct1] site_nonempty f2
  have b: "wayback_lookup net_down site 2020 6 [] = (Inr (PNone, PNone), exhausted_trace lookup_url)"
    by (simp add: api_url_site)
  have "\<forall>n u. raises_request_exception (always_down n u)"
    by (simp add: always_down_def)
  with retry_exhaustion [where net = always_down and url = site and w = "[]" and year = 2020
      and month = 6 and a = PNone, THEN conjunct2, THEN conjunct2, THEN conjunct2]
  have c: "fst (collect_dual always_down site 2020 6 []) = Inr out_none"
    by blast
  from f1 f2 a b c show ?thesis
    by blast
qed

subsection \<open>Status codes as strings\<close>





end
